theory Spec2Isabelle
  imports Main "HOL-Library.Multiset"
begin

section \<open>Hacktoberfest statistics: the qualification and aggregation pipeline\<close>

text \<open>
  A shallow embedding of \<^verbatim>\<open>bot/exts/halloween/hacktoberstats.py\<close>: the part of
  \<^verbatim>\<open>get_october_prs\<close> that runs once the search response has been parsed (lines 263-313),
  \<^verbatim>\<open>_get_shortname\<close>, \<^verbatim>\<open>_summarize_prs\<close>, \<^verbatim>\<open>_build_top5str\<close>, \<^verbatim>\<open>_contributionator\<close>,
  \<^verbatim>\<open>build_embed\<close> and \<^verbatim>\<open>get_stats\<close>. Python names that start with an underscore lose it.

  Conventions.
  \<^item> A Python exception is a value \<open>Inl err\<close> of a sum type; a normal result is \<open>Inr v\<close>.
  \<^item> The parsed body of an HTTP response is a value of type \<open>json\<close>. Numbers are integers
    (floating-point numbers are not modelled).
  \<^item> A character of a Python string is its Unicode code point, and the type \<open>char\<close> holds
    the code points below 256. Strings with a code point from 256 on are not values of
    the model.
  \<^item> The effects of \<^verbatim>\<open>get_october_prs\<close> are returned beside its result as the list of
    events it caused, in order: the requests to the topics API and the log records.
    Events caused before an exception stay in the list.
  \<^item> The library function \<^verbatim>\<open>datetime.strptime\<close>, the HTTP request to the topics API and
    the module constant \<^verbatim>\<open>CURRENT_YEAR\<close> are parameters, gathered in the record \<open>env\<close>.
\<close>

subsection \<open>Python values and exceptions\<close>

datatype py_error =
    KeyError | IndexError | TypeError | ValueError | AttributeError | ClientError

datatype json =
    JNull
  | JBool bool
  | JInt int
  | JStr string
  | JArr "json list"
  | JObj "(string \<times> json) list"

text \<open>
  A \<open>JObj\<close> is a Python dict with string keys, as an association list in insertion
  order. A dict has no repeated key; the functions below read a list with a repeated key
  by its first binding.
\<close>

text \<open>\<^verbatim>\<open>k in j.keys()\<close>: only a dict has the method \<^verbatim>\<open>keys\<close>.\<close>

fun keys_contains :: "string \<Rightarrow> json \<Rightarrow> py_error + bool" where
  "keys_contains k (JObj kvs) = Inr (k \<in> set (map fst kvs))"
| "keys_contains k JNull = Inl AttributeError"
| "keys_contains k (JBool b) = Inl AttributeError"
| "keys_contains k (JInt n) = Inl AttributeError"
| "keys_contains k (JStr s) = Inl AttributeError"
| "keys_contains k (JArr xs) = Inl AttributeError"

text \<open>
  \<^verbatim>\<open>j[k]\<close> for a string key \<open>k\<close>: a missing key of a dict is a KeyError; a list or a
  string indexed by a string, and a value that cannot be subscripted, are a TypeError.
\<close>

fun getitem :: "json \<Rightarrow> string \<Rightarrow> py_error + json" where
  "getitem (JObj kvs) k = (case map_of kvs k of None \<Rightarrow> Inl KeyError | Some v \<Rightarrow> Inr v)"
| "getitem JNull k = Inl TypeError"
| "getitem (JBool b) k = Inl TypeError"
| "getitem (JInt n) k = Inl TypeError"
| "getitem (JStr s) k = Inl TypeError"
| "getitem (JArr xs) k = Inl TypeError"

text \<open>
  \<^verbatim>\<open>j[0]\<close>: the first element of a list or the first character of a string, an
  IndexError when they are empty; a KeyError on a dict (its keys are strings); a
  TypeError on a value that cannot be subscripted.
\<close>

fun getitem0 :: "json \<Rightarrow> py_error + json" where
  "getitem0 (JArr []) = Inl IndexError"
| "getitem0 (JArr (x # xs)) = Inr x"
| "getitem0 (JStr []) = Inl IndexError"
| "getitem0 (JStr (c # cs)) = Inr (JStr [c])"
| "getitem0 (JObj kvs) = Inl KeyError"
| "getitem0 JNull = Inl TypeError"
| "getitem0 (JBool b) = Inl TypeError"
| "getitem0 (JInt n) = Inl TypeError"

text \<open>The literal \<open>p\<close> at the start of \<open>s\<close>: what follows it, if it is there.\<close>

fun strip_prefix :: "string \<Rightarrow> string \<Rightarrow> string option" where
  "strip_prefix [] s = Some s"
| "strip_prefix (p # ps) [] = None"
| "strip_prefix (p # ps) (c # cs) = (if p = c then strip_prefix ps cs else None)"

text \<open>\<^verbatim>\<open>s in t\<close> for two strings: \<open>s\<close> occurs in \<open>t\<close> at some position.\<close>

fun substring :: "string \<Rightarrow> string \<Rightarrow> bool" where
  "substring s [] = (s = [])"
| "substring s (c # cs) = (strip_prefix s (c # cs) \<noteq> None \<or> substring s cs)"

text \<open>
  \<^verbatim>\<open>s in j\<close> for a string \<open>s\<close>: membership in a list (by equality, and a string is only
  equal to a string), a key of a dict, a substring of a string; a TypeError on a value
  that is not a container.
\<close>

fun contains :: "string \<Rightarrow> json \<Rightarrow> py_error + bool" where
  "contains s (JArr xs) = Inr (JStr s \<in> set xs)"
| "contains s (JObj kvs) = Inr (s \<in> set (map fst kvs))"
| "contains s (JStr t) = Inr (substring s t)"
| "contains s JNull = Inl TypeError"
| "contains s (JBool b) = Inl TypeError"
| "contains s (JInt n) = Inl TypeError"

text \<open>
  \<^verbatim>\<open>for item in j\<close>: the elements of a list, the keys of a dict, the characters of a
  string; a TypeError on a value that is not iterable.
\<close>

fun iter :: "json \<Rightarrow> py_error + json list" where
  "iter (JArr xs) = Inr xs"
| "iter (JObj kvs) = Inr (map (\<lambda>kv. JStr (fst kv)) kvs)"
| "iter (JStr s) = Inr (map (\<lambda>c. JStr [c]) s)"
| "iter JNull = Inl TypeError"
| "iter (JBool b) = Inl TypeError"
| "iter (JInt n) = Inl TypeError"

text \<open>\<^verbatim>\<open>j == 0\<close>: true of the integer 0 and of \<^verbatim>\<open>False\<close>, which Python counts as 0.\<close>

fun eq_zero :: "json \<Rightarrow> bool" where
  "eq_zero (JInt n) = (n = 0)"
| "eq_zero (JBool b) = (\<not> b)"
| "eq_zero JNull = False"
| "eq_zero (JStr s) = False"
| "eq_zero (JArr xs) = False"
| "eq_zero (JObj kvs) = False"

subsection \<open>Decimal text of an integer\<close>

text \<open>\<^verbatim>\<open>str(n)\<close>, which an f-string applies to an integer.\<close>

fun str_nat :: "nat \<Rightarrow> string" where
  "str_nat n =
     (if n < 10 then [''0123456789'' ! n]
      else str_nat (n div 10) @ [''0123456789'' ! (n mod 10)])"

declare str_nat.simps [simp del]

definition str_int :: "int \<Rightarrow> string" where
  "str_int i = (if i < 0 then CHR ''-'' # str_nat (nat (- i)) else str_nat (nat i))"

subsection \<open>\<^verbatim>\<open>_get_shortname\<close>\<close>

text \<open>
  \<^verbatim>\<open>re.findall(r"https?:\/\/api.github.com\/repos\/([/\-\_\.\w]+)", in_url)[0]\<close>.
  The pattern has one group, so \<^verbatim>\<open>findall\<close> lists the group of every match, leftmost
  first, and index 0 is the group of the first position of \<open>in_url\<close> where the pattern
  matches. The two dots of \<^verbatim>\<open>api.github.com\<close> are not escaped: each stands for any
  character but a newline.
\<close>

text \<open>
  The class \<^verbatim>\<open>\w\<close> of a \<^verbatim>\<open>str\<close> pattern: the underscore and every character that is
  alphanumeric in Unicode. Below 128 these are the ASCII letters and digits; from 128 to
  255 they are the code points listed in \<open>latin1_alnum\<close> (letters, superscript digits
  and fractions; not the signs for multiplication 0xD7 and division 0xF7).
\<close>

definition latin1_alnum :: "nat \<Rightarrow> bool" where
  "latin1_alnum n =
     (n = 0xAA \<or> n = 0xB2 \<or> n = 0xB3 \<or> n = 0xB5 \<or> n = 0xB9 \<or> n = 0xBA
      \<or> (0xBC \<le> n \<and> n \<le> 0xBE) \<or> (0xC0 \<le> n \<and> n \<le> 0xD6)
      \<or> (0xD8 \<le> n \<and> n \<le> 0xF6) \<or> (0xF8 \<le> n \<and> n \<le> 0xFF))"

definition word_char :: "char \<Rightarrow> bool" where
  "word_char c =
     (c \<in> set ''abcdefghijklmnopqrstuvwxyz'' \<or> c \<in> set ''ABCDEFGHIJKLMNOPQRSTUVWXYZ''
      \<or> c \<in> set ''0123456789'' \<or> c = CHR ''_'' \<or> latin1_alnum (of_char c))"

text \<open>The class \<^verbatim>\<open>[/\-\_\.\w]\<close>.\<close>

definition shortname_char :: "char \<Rightarrow> bool" where
  "shortname_char c =
     (c = CHR ''/'' \<or> c = CHR ''-'' \<or> c = CHR ''_'' \<or> c = CHR ''.'' \<or> word_char c)"

text \<open>The pattern \<^verbatim>\<open>.\<close>: one character that is not a newline.\<close>

fun any_char :: "string \<Rightarrow> string option" where
  "any_char [] = None"
| "any_char (c # cs) = (if c = CHR 0x0A then None else Some cs)"

text \<open>
  The pattern from \<^verbatim>\<open>:\/\/\<close> on. The group is greedy and nothing follows it, so it is
  the longest run of characters of the class, and the match fails when the run is empty.
\<close>

definition match_tail :: "string \<Rightarrow> string option" where
  "match_tail s =
     (case strip_prefix ''://api'' s of None \<Rightarrow> None | Some s1 \<Rightarrow>
     (case any_char s1 of None \<Rightarrow> None | Some s2 \<Rightarrow>
     (case strip_prefix ''github'' s2 of None \<Rightarrow> None | Some s3 \<Rightarrow>
     (case any_char s3 of None \<Rightarrow> None | Some s4 \<Rightarrow>
     (case strip_prefix ''com/repos/'' s4 of None \<Rightarrow> None | Some s5 \<Rightarrow>
        if takeWhile shortname_char s5 = [] then None
        else Some (takeWhile shortname_char s5))))))"

text \<open>
  The whole pattern at the start of \<open>s\<close>. \<^verbatim>\<open>s?\<close> is greedy: the matcher takes an
  \<^verbatim>\<open>s\<close> when there is one, and tries without it when the rest fails.
\<close>

definition match_at :: "string \<Rightarrow> string option" where
  "match_at s =
     (case strip_prefix ''http'' s of None \<Rightarrow> None | Some r \<Rightarrow>
     (case strip_prefix ''s'' r of
        None \<Rightarrow> match_tail r
      | Some r' \<Rightarrow> (case match_tail r' of Some g \<Rightarrow> Some g | None \<Rightarrow> match_tail r)))"

text \<open>The group of the leftmost match: the positions are tried from left to right.\<close>

fun first_match :: "string \<Rightarrow> string option" where
  "first_match [] = match_at []"
| "first_match (c # cs) =
     (case match_at (c # cs) of Some g \<Rightarrow> Some g | None \<Rightarrow> first_match cs)"

text \<open>Index 0 of an empty list of matches is an IndexError.\<close>

definition get_shortname :: "string \<Rightarrow> py_error + string" where
  "get_shortname in_url =
     (case first_match in_url of None \<Rightarrow> Inl IndexError | Some g \<Rightarrow> Inr g)"

subsection \<open>Timestamps\<close>

text \<open>
  A naive \<^verbatim>\<open>datetime\<close>. Python orders two of them as it orders the tuples of their
  fields, from the year down to the microsecond.
\<close>

record datetime =
  year :: int
  month :: int
  day :: int
  hour :: int
  minute :: int
  second :: int
  microsecond :: int

fun lex_less :: "int list \<Rightarrow> int list \<Rightarrow> bool" where
  "lex_less [] ys = (ys \<noteq> [])"
| "lex_less (x # xs) [] = False"
| "lex_less (x # xs) (y # ys) = (x < y \<or> (x = y \<and> lex_less xs ys))"

definition dt_fields :: "datetime \<Rightarrow> int list" where
  "dt_fields d = [year d, month d, day d, hour d, minute d, second d, microsecond d]"

definition dt_less :: "datetime \<Rightarrow> datetime \<Rightarrow> bool" where
  "dt_less a b = lex_less (dt_fields a) (dt_fields b)"

subsection \<open>What the code takes from outside\<close>

text \<open>
  \<^item> \<open>current_year\<close>: the module constant \<^verbatim>\<open>CURRENT_YEAR\<close>, set when the module is loaded.
  \<^item> \<open>strptime\<close>: \<^verbatim>\<open>datetime.strptime(s, "%Y-%m-%dT%H:%M:%SZ")\<close> on a string: the
    timestamp, or the exception the library raises.
  \<^item> \<open>topics_get\<close>: the GET request of lines 302-304 to the given URL: the parsed body,
    or the exception the HTTP client raises.
\<close>

record env =
  current_year :: int
  strptime :: "string \<Rightarrow> py_error + datetime"
  topics_get :: "string \<Rightarrow> py_error + json"

definition GITHUB_NONEXISTENT_USER_MESSAGE :: string where
  "GITHUB_NONEXISTENT_USER_MESSAGE =
     ''The listed users cannot be searched either because the users do not exist '' @
     ''or you do not have permission to view the users.''"

definition PRS_FOR_SHIRT :: int where
  "PRS_FOR_SHIRT = 4"

text \<open>Line 284: \<^verbatim>\<open>datetime(int(CURRENT_YEAR), 10, 3, 0, 0, 0)\<close>.\<close>

definition oct3 :: "env \<Rightarrow> datetime" where
  "oct3 e = \<lparr>year = current_year e, month = 10, day = 3, hour = 0, minute = 0,
             second = 0, microsecond = 0\<rparr>"

subsection \<open>\<^verbatim>\<open>get_october_prs\<close>, from the parsed search response on\<close>

record itemdict =
  repo_url :: string
  repo_shortname :: string
  created_at :: datetime

text \<open>The three kinds of value \<^verbatim>\<open>get_october_prs\<close> returns: \<^verbatim>\<open>False\<close>, \<^verbatim>\<open>None\<close>, a list.\<close>

datatype prs_result = RFalse | RNone | RList "itemdict list"

text \<open>
  The events: a request to the topics API (line 303, with its URL) and the log records
  of lines 269, 272, 279 and 307, each with the values its message is built from.
\<close>

datatype event =
    TopicsGet string
  | LogDebugNoUser string
  | LogErrorRequestFailed string json
  | LogInfoNoPRs string
  | LogErrorTopics string

definition topic_calls :: "event list \<Rightarrow> nat" where
  "topic_calls evs = length (filter (\<lambda>ev. case ev of TopicsGet u \<Rightarrow> True | _ \<Rightarrow> False) evs)"

text \<open>A library function that wants a \<^verbatim>\<open>str\<close> raises a TypeError on anything else.\<close>

fun as_str :: "json \<Rightarrow> py_error + string" where
  "as_str (JStr s) = Inr s"
| "as_str JNull = Inl TypeError"
| "as_str (JBool b) = Inl TypeError"
| "as_str (JInt n) = Inl TypeError"
| "as_str (JArr xs) = Inl TypeError"
| "as_str (JObj kvs) = Inl TypeError"

text \<open>Lines 287-294: the short name, then the dict with the parsed timestamp.\<close>

definition make_itemdict :: "env \<Rightarrow> json \<Rightarrow> py_error + itemdict" where
  "make_itemdict e item =
     (case getitem item ''repository_url'' of Inl err \<Rightarrow> Inl err | Inr in_url \<Rightarrow>
     (case as_str in_url of Inl err \<Rightarrow> Inl err | Inr u \<Rightarrow>
     (case get_shortname u of Inl err \<Rightarrow> Inl err | Inr shortname \<Rightarrow>
     (case getitem item ''created_at'' of Inl err \<Rightarrow> Inl err | Inr ts \<Rightarrow>
     (case as_str ts of Inl err \<Rightarrow> Inl err | Inr t \<Rightarrow>
     (case strptime e t of Inl err \<Rightarrow> Inl err | Inr created \<Rightarrow>
        Inr \<lparr>repo_url = ''https://www.github.com/'' @ shortname,
             repo_shortname = shortname,
             created_at = created\<rparr>))))))"

text \<open>
  Lines 306-307: when the topics response has no key \<^verbatim>\<open>names\<close>, its \<^verbatim>\<open>message\<close> is
  appended to a string and logged. Nothing else happens there: the code goes on to
  line 311.
\<close>

definition log_missing_names :: "string \<Rightarrow> json \<Rightarrow> py_error + event list" where
  "log_missing_names shortname jsonresp2 =
     (case keys_contains ''names'' jsonresp2 of Inl err \<Rightarrow> Inl err | Inr has_names \<Rightarrow>
        if has_names then Inr []
        else
          (case getitem jsonresp2 ''message'' of Inl err \<Rightarrow> Inl err | Inr m \<Rightarrow>
          (case as_str m of Inl err \<Rightarrow> Inl err | Inr t \<Rightarrow>
             Inr [LogErrorTopics (''Error fetching topics for '' @ shortname @ '': '' @ t)])))"

text \<open>
  The condition of line 311:
  \<^verbatim>\<open>("hacktoberfest" in jsonresp2["names"]) or ("hacktoberfest-accpeted" in jsonresp["labels"])\<close>.
  The right operand reads the search response \<open>jsonresp\<close>, and only when the left one
  is false.
\<close>

definition topic_or_label :: "json \<Rightarrow> json \<Rightarrow> py_error + bool" where
  "topic_or_label jsonresp jsonresp2 =
     (case getitem jsonresp2 ''names'' of Inl err \<Rightarrow> Inl err | Inr names \<Rightarrow>
     (case contains ''hacktoberfest'' names of Inl err \<Rightarrow> Inl err | Inr has_topic \<Rightarrow>
        if has_topic then Inr True
        else
          (case getitem jsonresp ''labels'' of Inl err \<Rightarrow> Inl err | Inr labels \<Rightarrow>
             contains ''hacktoberfest-accpeted'' labels)))"

text \<open>Lines 301-311: the request, the log record, the condition.\<close>

definition check_topics :: "env \<Rightarrow> json \<Rightarrow> string \<Rightarrow> (py_error + bool) \<times> event list" where
  "check_topics e jsonresp shortname =
     (let topics_query_url = ''https://api.github.com/repos/'' @ shortname @ ''/topics'' in
      case topics_get e topics_query_url of
        Inl err \<Rightarrow> (Inl err, [TopicsGet topics_query_url])
      | Inr jsonresp2 \<Rightarrow>
         (case log_missing_names shortname jsonresp2 of
            Inl err \<Rightarrow> (Inl err, [TopicsGet topics_query_url])
          | Inr logs \<Rightarrow> (topic_or_label jsonresp jsonresp2, TopicsGet topics_query_url # logs)))"

text \<open>
  The body of the loop of line 286 for one item: \<open>Some itemdict\<close> when the item is
  appended to \<^verbatim>\<open>outlist\<close>, \<open>None\<close> when it is not.
\<close>

definition pr_item :: "env \<Rightarrow> json \<Rightarrow> json \<Rightarrow> (py_error + itemdict option) \<times> event list" where
  "pr_item e jsonresp item =
     (case make_itemdict e item of
        Inl err \<Rightarrow> (Inl err, [])
      | Inr itemdict \<Rightarrow>
          if dt_less (created_at itemdict) (oct3 e) then (Inr (Some itemdict), [])
          else
            (case check_topics e jsonresp (repo_shortname itemdict) of
               (Inl err, evs) \<Rightarrow> (Inl err, evs)
             | (Inr ok, evs) \<Rightarrow> (Inr (if ok then Some itemdict else None), evs)))"

text \<open>The loop: an exception in one item ends it.\<close>

fun item_loop ::
  "env \<Rightarrow> json \<Rightarrow> json list \<Rightarrow> itemdict list \<Rightarrow> (py_error + itemdict list) \<times> event list" where
  "item_loop e jsonresp [] outlist = (Inr outlist, [])"
| "item_loop e jsonresp (item # items) outlist =
     (case pr_item e jsonresp item of
        (Inl err, evs) \<Rightarrow> (Inl err, evs)
      | (Inr added, evs) \<Rightarrow>
          (case item_loop e jsonresp items
                  (case added of None \<Rightarrow> outlist | Some itemdict \<Rightarrow> outlist @ [itemdict]) of
             (res, evs') \<Rightarrow> (res, evs @ evs')))"

text \<open>Lines 263-273: the search response is an error message.\<close>

definition search_error :: "string \<Rightarrow> json \<Rightarrow> (py_error + prs_result) \<times> event list" where
  "search_error github_username jsonresp =
     (case getitem jsonresp ''errors'' of Inl err \<Rightarrow> (Inl err, []) | Inr errors \<Rightarrow>
     (case getitem0 errors of Inl err \<Rightarrow> (Inl err, []) | Inr error0 \<Rightarrow>
     (case getitem error0 ''message'' of Inl err \<Rightarrow> (Inl err, []) | Inr api_message \<Rightarrow>
        if api_message = JStr GITHUB_NONEXISTENT_USER_MESSAGE
        then (Inr RFalse, [LogDebugNoUser github_username])
        else (Inr RFalse, [LogErrorRequestFailed github_username api_message]))))"

text \<open>
  Lines 263-313. \<open>jsonresp\<close> is the parsed body of the search response (lines 238-261
  build the query and send it).
\<close>

definition get_october_prs ::
  "env \<Rightarrow> string \<Rightarrow> json \<Rightarrow> (py_error + prs_result) \<times> event list" where
  "get_october_prs e github_username jsonresp =
     (case keys_contains ''message'' jsonresp of
        Inl err \<Rightarrow> (Inl err, [])
      | Inr has_message \<Rightarrow>
          if has_message then search_error github_username jsonresp
          else
            (case getitem jsonresp ''total_count'' of
               Inl err \<Rightarrow> (Inl err, [])
             | Inr total_count \<Rightarrow>
                 if eq_zero total_count then (Inr RNone, [LogInfoNoPRs github_username])
                 else
                   (case getitem jsonresp ''items'' of
                      Inl err \<Rightarrow> (Inl err, [])
                    | Inr its \<Rightarrow>
                       (case iter its of
                          Inl err \<Rightarrow> (Inl err, [])
                        | Inr items \<Rightarrow>
                           (case item_loop e jsonresp items [] of
                              (Inl err, evs) \<Rightarrow> (Inl err, evs)
                            | (Inr outlist, evs) \<Rightarrow> (Inr (RList outlist), evs))))))"

subsection \<open>\<^verbatim>\<open>_summarize_prs\<close>\<close>

text \<open>
  \<^verbatim>\<open>Counter(xs)\<close>: a dict of counts. A key stays where it was first inserted, so the
  association list is in the order of first occurrence.
\<close>

fun counter_incr :: "'a \<Rightarrow> ('a \<times> int) list \<Rightarrow> ('a \<times> int) list" where
  "counter_incr x [] = [(x, 1)]"
| "counter_incr x (kc # kcs) =
     (if fst kc = x then (fst kc, snd kc + 1) # kcs else kc # counter_incr x kcs)"

definition Counter :: "'a list \<Rightarrow> ('a \<times> int) list" where
  "Counter xs = foldl (\<lambda>c x. counter_incr x c) [] xs"

text \<open>
  \<^verbatim>\<open>most_common(n)\<close> is \<^verbatim>\<open>heapq.nlargest(n, self.items(), key=itemgetter(1))\<close>, which
  is \<^verbatim>\<open>sorted(self.items(), key=itemgetter(1), reverse=True)[:n]\<close>: a stable sort by
  count, largest first, cut after \<open>n\<close> entries.
\<close>

definition most_common :: "nat \<Rightarrow> ('a \<times> int) list \<Rightarrow> ('a \<times> int) list" where
  "most_common n c = take n (sort_key (\<lambda>kc. - snd kc) c)"

record stats =
  n_prs :: int
  top5 :: "(string \<times> int) list"

definition summarize_prs :: "itemdict list \<Rightarrow> stats" where
  "summarize_prs prs =
     (let contributed_repos = map repo_shortname prs
      in \<lparr>n_prs = int (length prs), top5 = most_common 5 (Counter contributed_repos)\<rparr>)"

subsection \<open>\<^verbatim>\<open>build_embed\<close> and \<^verbatim>\<open>get_stats\<close>\<close>

definition contributionator :: "int \<Rightarrow> string" where
  "contributionator n = (if n = 1 then ''contribution'' else ''contributions'')"

text \<open>\<^verbatim>\<open>sep.join(xs)\<close>.\<close>

fun join :: "string \<Rightarrow> string list \<Rightarrow> string" where
  "join sep [] = []"
| "join sep [x] = x"
| "join sep (x # y # ys) = x @ sep @ join sep (y # ys)"

definition build_top5str :: "stats \<Rightarrow> string" where
  "build_top5str st =
     join [CHR 0x0A]
       (map (\<lambda>repo. str_int (snd repo) @ '' '' @ contributionator (snd repo) @ '' to ['' @
                     fst repo @ '']('' @ ''https://www.github.com/'' @ fst repo @ '')'')
            (top5 st))"

text \<open>Lines 187-193: the sentence about the T-shirt, from the number of pull requests.\<close>

definition shirtstr :: "string \<Rightarrow> int \<Rightarrow> string" where
  "shirtstr github_username n =
     (if n \<ge> PRS_FOR_SHIRT then
        ''**'' @ github_username @ '' has earned a T-shirt or a tree!**''
      else if n = PRS_FOR_SHIRT - 1 then
        ''**'' @ github_username @ '' is 1 PR away from a T-shirt or a tree!**''
      else
        ''**'' @ github_username @ '' is '' @ str_int (PRS_FOR_SHIRT - n) @
        '' PRs away from a T-shirt or a tree!**'')"

record embed =
  title :: string
  color :: nat
  description :: string
  thumbnail_url :: string
  author_name :: string
  author_url :: string
  author_icon_url :: string
  embed_fields :: "(string \<times> string) list"

definition build_embed :: "string \<Rightarrow> itemdict list \<Rightarrow> embed" where
  "build_embed github_username prs =
     (let pr_stats = summarize_prs prs;
          n = n_prs pr_stats
      in \<lparr>title = github_username @ [CHR 0x27] @ ''s Hacktoberfest'',
          color = 0x9c4af7,
          description =
            github_username @ '' has made '' @ str_int n @ '' '' @ contributionator n @
            '' in '' @ ''October'' @ [CHR 0x0A, CHR 0x0A] @
            shirtstr github_username n @ [CHR 0x0A, CHR 0x0A],
          thumbnail_url = ''https://www.github.com/'' @ github_username @ ''.png'',
          author_name = ''Hacktoberfest'',
          author_url = ''https://hacktoberfest.digitalocean.com'',
          author_icon_url = ''https://avatars1.githubusercontent.com/u/35706162?s=200&v=4'',
          embed_fields = [(''Top 5 Repositories:'', build_top5str pr_stats)]\<rparr>)"

text \<open>What \<^verbatim>\<open>get_stats\<close> sends to the channel: a text, and an embed or none.\<close>

record sent =
  content :: string
  sent_embed :: "embed option"

text \<open>\<^verbatim>\<open>if prs:\<close> holds of a list that is not empty; \<^verbatim>\<open>False\<close>, \<^verbatim>\<open>None\<close> and \<^verbatim>\<open>[]\<close> fail it.\<close>

fun truthy :: "prs_result \<Rightarrow> bool" where
  "truthy RFalse = False"
| "truthy RNone = False"
| "truthy (RList prs) = (prs \<noteq> [])"

fun the_prs :: "prs_result \<Rightarrow> itemdict list" where
  "the_prs (RList prs) = prs"
| "the_prs RFalse = []"
| "the_prs RNone = []"

definition get_stats :: "env \<Rightarrow> string \<Rightarrow> json \<Rightarrow> (py_error + sent) \<times> event list" where
  "get_stats e github_username jsonresp =
     (case get_october_prs e github_username jsonresp of
        (Inl err, evs) \<Rightarrow> (Inl err, evs)
      | (Inr prs, evs) \<Rightarrow>
          if truthy prs then
            (Inr \<lparr>content = ''Here are some stats!'',
                  sent_embed = Some (build_embed github_username (the_prs prs))\<rparr>, evs)
          else
            (Inr \<lparr>content = ''No valid October GitHub contributions found for '' @ [CHR 0x27] @
                            github_username @ [CHR 0x27],
                  sent_embed = None\<rparr>, evs))"

subsection \<open>A timestamp parser for the concrete evaluations\<close>

text \<open>
  The timestamps GitHub sends have every field at its full width, as in
  \<^verbatim>\<open>2020-10-05T12:30:00Z\<close>. On such a string \<^verbatim>\<open>datetime.strptime\<close> with the format of
  line 292 returns the fields as numbers, and raises a ValueError when a field is out of
  range. \<open>strptime_full_width\<close> does the same and stands for the library function where an
  \<open>env\<close> is needed at a concrete input. A string of another shape is a ValueError here (the
  library reads a few of them); the theorems below do not depend on it, they hold for every \<open>env\<close>.
\<close>

definition digit_of :: "char \<Rightarrow> int option" where
  "digit_of c =
     (if c \<in> set ''0123456789''
      then Some (int (length (takeWhile (\<lambda>d. d \<noteq> c) ''0123456789''))) else None)"

definition number_of :: "string \<Rightarrow> int option" where
  "number_of ds =
     (case those (map digit_of ds) of
        None \<Rightarrow> None
      | Some vs \<Rightarrow> Some (foldl (\<lambda>a v. 10 * a + v) 0 vs))"

definition days_in_month :: "int \<Rightarrow> int \<Rightarrow> int" where
  "days_in_month y m =
     (if m = 2 then (if y mod 4 = 0 \<and> (y mod 100 \<noteq> 0 \<or> y mod 400 = 0) then 29 else 28)
      else if m = 4 \<or> m = 6 \<or> m = 9 \<or> m = 11 then 30 else 31)"

definition strptime_full_width :: "string \<Rightarrow> py_error + datetime" where
  "strptime_full_width s =
     (if length s = 20 \<and> s ! 4 = CHR ''-'' \<and> s ! 7 = CHR ''-'' \<and> s ! 10 = CHR ''T''
         \<and> s ! 13 = CHR '':'' \<and> s ! 16 = CHR '':'' \<and> s ! 19 = CHR ''Z''
      then
        (case those [number_of (take 4 s), number_of (take 2 (drop 5 s)),
                     number_of (take 2 (drop 8 s)), number_of (take 2 (drop 11 s)),
                     number_of (take 2 (drop 14 s)), number_of (take 2 (drop 17 s))] of
           Some [y, m, d, h, mi, sec] \<Rightarrow>
             if 1 \<le> y \<and> 1 \<le> m \<and> m \<le> 12 \<and> 1 \<le> d \<and> d \<le> days_in_month y m
                \<and> h < 24 \<and> mi < 60 \<and> sec < 60
             then Inr \<lparr>year = y, month = m, day = d, hour = h, minute = mi, second = sec,
                       microsecond = 0\<rparr>
             else Inl ValueError
         | _ \<Rightarrow> Inl ValueError)
      else Inl ValueError)"

subsection \<open>Notions the statements use\<close>

text \<open>An item is admitted when the body of the loop appends it to \<^verbatim>\<open>outlist\<close>.\<close>

definition admitted :: "env \<Rightarrow> json \<Rightarrow> json \<Rightarrow> bool" where
  "admitted e jsonresp item =
     (case fst (pr_item e jsonresp item) of Inr (Some itemdict) \<Rightarrow> True | _ \<Rightarrow> False)"

text \<open>The position of the first occurrence of \<open>x\<close> in \<open>xs\<close>.\<close>

definition first_index :: "'a list \<Rightarrow> 'a \<Rightarrow> nat" where
  "first_index xs x = length (takeWhile (\<lambda>y. y \<noteq> x) xs)"

subsection \<open>Concrete inputs\<close>

text \<open>A topics API that knows no topic for any repository.\<close>

definition example_env :: env where
  "example_env =
     \<lparr>current_year = 2020, strptime = strptime_full_width,
      topics_get = (\<lambda>url. Inr (JObj [(''names'', JArr [])]))\<rparr>"

definition early_item :: json where
  "early_item =
     JObj [(''repository_url'', JStr ''https://api.github.com/repos/python-discord/seasonalbot''),
           (''created_at'', JStr ''2020-10-02T23:59:59Z'')]"

definition late_item :: json where
  "late_item =
     JObj [(''repository_url'', JStr ''https://api.github.com/repos/octocat/hello-world''),
           (''created_at'', JStr ''2020-10-05T12:30:00Z'')]"

definition example_response :: json where
  "example_response =
     JObj [(''total_count'', JInt 2), (''incomplete_results'', JBool False),
           (''items'', JArr [early_item, late_item])]"

text \<open>What the topics API answers for a repository it does not show.\<close>

definition topics_not_found :: json where
  "topics_not_found =
     JObj [(''message'', JStr ''Not Found''),
           (''documentation_url'', JStr ''https://docs.github.com/rest'')]"

definition user_not_found_response :: json where
  "user_not_found_response =
     JObj [(''message'', JStr ''Validation Failed''),
           (''errors'', JArr [JObj [(''message'', JStr GITHUB_NONEXISTENT_USER_MESSAGE),
                                    (''resource'', JStr ''Search''),
                                    (''field'', JStr ''q''),
                                    (''code'', JStr ''invalid'')]]),
           (''documentation_url'', JStr ''https://docs.github.com/v3/search/'')]"

definition other_failure_response :: json where
  "other_failure_response =
     JObj [(''message'', JStr ''Validation Failed''),
           (''errors'', JArr [JObj [(''message'', JStr ''The search is longer than 256 characters.''),
                                    (''resource'', JStr ''Search''),
                                    (''field'', JStr ''q''),
                                    (''code'', JStr ''invalid'')]]),
           (''documentation_url'', JStr ''https://docs.github.com/v3/search/'')]"

definition rate_limit_response :: json where
  "rate_limit_response =
     JObj [(''message'', JStr ''API rate limit exceeded''),
           (''documentation_url'', JStr ''https://docs.github.com/rest/rate-limit'')]"

definition zero_response :: json where
  "zero_response =
     JObj [(''total_count'', JInt 0), (''incomplete_results'', JBool False),
           (''items'', JArr [])]"

text \<open>Lists of pull requests with given repositories, for the aggregator.\<close>

definition prs_of_repos :: "string list \<Rightarrow> itemdict list" where
  "prs_of_repos repos =
     map (\<lambda>r. \<lparr>repo_url = ''https://www.github.com/'' @ r, repo_shortname = r,
                created_at = oct3 example_env\<rparr>) repos"

definition claim_prs :: "itemdict list" where
  "claim_prs = prs_of_repos [''A'', ''B'', ''A'', ''C'', ''B'', ''A'']"

definition tie_prs :: "itemdict list" where
  "tie_prs = prs_of_repos [''A'', ''B'', ''C'', ''B'', ''A'']"

definition six_prs :: "itemdict list" where
  "six_prs = prs_of_repos [''A'', ''B'', ''C'', ''D'', ''E'', ''F'']"

section \<open>Properties\<close>

subsection \<open>The grace period\<close>

text \<open>
  C1. A candidate with a repository URL the pattern matches and a timestamp that parses
  to a time strictly before 3 October, 00:00:00, of the current year is appended to the
  output whatever the topics API would answer for it and whatever the search response
  holds: the body of the loop returns the candidate's dict with no event, so the number
  of requests to the topics API it makes is zero, and the loop goes on to the next items
  with the dict at the end of the output.
\<close>

theorem grace_period_admits_without_lookup:
  assumes "getitem item ''repository_url'' = Inr (JStr in_url)"
    and "get_shortname in_url = Inr shortname"
    and "getitem item ''created_at'' = Inr (JStr ts)"
    and "strptime e ts = Inr created"
    and "dt_less created (oct3 e)"
  shows "\<forall>lookup.
           pr_item (e\<lparr>topics_get := lookup\<rparr>) jsonresp item =
             (Inr (Some \<lparr>repo_url = ''https://www.github.com/'' @ shortname,
                         repo_shortname = shortname, created_at = created\<rparr>), [])
         \<and> topic_calls (snd (pr_item (e\<lparr>topics_get := lookup\<rparr>) jsonresp item)) = 0
         \<and> item_loop (e\<lparr>topics_get := lookup\<rparr>) jsonresp (item # items) outlist =
             item_loop (e\<lparr>topics_get := lookup\<rparr>) jsonresp items
               (outlist @ [\<lparr>repo_url = ''https://www.github.com/'' @ shortname,
                            repo_shortname = shortname, created_at = created\<rparr>])"
  using assms
  by (simp add: pr_item_def make_itemdict_def oct3_def topic_calls_def split: prod.splits)

theorem grace_period_admits_without_lookup_witness:
  "getitem early_item ''repository_url'' =
     Inr (JStr ''https://api.github.com/repos/python-discord/seasonalbot'')
   \<and> get_shortname ''https://api.github.com/repos/python-discord/seasonalbot'' =
     Inr ''python-discord/seasonalbot''
   \<and> getitem early_item ''created_at'' = Inr (JStr ''2020-10-02T23:59:59Z'')
   \<and> strptime example_env ''2020-10-02T23:59:59Z'' =
     Inr \<lparr>year = 2020, month = 10, day = 2, hour = 23, minute = 59, second = 59,
          microsecond = 0\<rparr>
   \<and> dt_less \<lparr>year = 2020, month = 10, day = 2, hour = 23, minute = 59, second = 59,
               microsecond = 0\<rparr> (oct3 example_env)
   \<and> pr_item (example_env\<lparr>topics_get := (\<lambda>url. Inl ClientError)\<rparr>) example_response early_item =
       (Inr (Some \<lparr>repo_url = ''https://www.github.com/python-discord/seasonalbot'',
                   repo_shortname = ''python-discord/seasonalbot'',
                   created_at = \<lparr>year = 2020, month = 10, day = 2, hour = 23, minute = 59,
                                  second = 59, microsecond = 0\<rparr>\<rparr>), [])"
proof -
  have h1: "getitem early_item ''repository_url'' =
     Inr (JStr ''https://api.github.com/repos/python-discord/seasonalbot'')"
    by code_simp
  have h2: "get_shortname ''https://api.github.com/repos/python-discord/seasonalbot'' =
     Inr ''python-discord/seasonalbot''"
    by code_simp
  have h3: "getitem early_item ''created_at'' = Inr (JStr ''2020-10-02T23:59:59Z'')"
    by code_simp
  have h4: "strptime example_env ''2020-10-02T23:59:59Z'' =
     Inr \<lparr>year = 2020, month = 10, day = 2, hour = 23, minute = 59, second = 59,
          microsecond = 0\<rparr>"
    by code_simp
  have h5: "dt_less \<lparr>year = 2020, month = 10, day = 2, hour = 23, minute = 59, second = 59,
               microsecond = 0\<rparr> (oct3 example_env)"
    by code_simp
  from grace_period_admits_without_lookup [OF h1 h2 h3 h4 h5, of example_response]
  have "pr_item (example_env\<lparr>topics_get := (\<lambda>url. Inl ClientError)\<rparr>) example_response early_item =
       (Inr (Some \<lparr>repo_url = ''https://www.github.com/'' @ ''python-discord/seasonalbot'',
                   repo_shortname = ''python-discord/seasonalbot'',
                   created_at = \<lparr>year = 2020, month = 10, day = 2, hour = 23, minute = 59,
                                  second = 59, microsecond = 0\<rparr>\<rparr>), [])"
    by blast
  with h1 h2 h3 h4 h5 show ?thesis by simp
qed

subsection \<open>After the grace period\<close>

text \<open>
  C2. At the input of the claim the code raises. \<open>late_item\<close> was created on 5 October;
  the topics API answers with an empty list of names, so the left operand of line 311
  is false and the right operand reads \<^verbatim>\<open>jsonresp["labels"]\<close>. The search response
  has no such key: the item is not rejected, the KeyError ends \<^verbatim>\<open>get_october_prs\<close>
  after the one request.
\<close>

theorem post_cutoff_without_topic_raises:
  "topics_get example_env ''https://api.github.com/repos/octocat/hello-world/topics'' =
     Inr (JObj [(''names'', JArr [])])
   \<and> contains ''hacktoberfest'' (JArr []) = Inr False
   \<and> getitem example_response ''labels'' = Inl KeyError
   \<and> pr_item example_env example_response late_item =
       (Inl KeyError, [TopicsGet ''https://api.github.com/repos/octocat/hello-world/topics''])
   \<and> get_october_prs example_env ''octocat'' example_response =
       (Inl KeyError, [TopicsGet ''https://api.github.com/repos/octocat/hello-world/topics''])"
  by code_simp

text \<open>
  C3. At the input of the claim the code raises. The topics API answers with an error
  message and no key \<^verbatim>\<open>names\<close>; line 307 logs it, and line 311 then reads
  \<^verbatim>\<open>jsonresp2["names"]\<close>, a KeyError whatever the search response holds. The first
  item, from the grace period, had been appended; no list is returned.
\<close>

theorem topics_error_raises:
  "getitem topics_not_found ''names'' = Inl KeyError
   \<and> topic_or_label example_response topics_not_found = Inl KeyError
   \<and> topic_or_label (JObj [(''labels'', JArr [])]) topics_not_found = Inl KeyError
   \<and> pr_item (example_env\<lparr>topics_get := (\<lambda>url. Inr topics_not_found)\<rparr>) example_response late_item =
       (Inl KeyError,
        [TopicsGet ''https://api.github.com/repos/octocat/hello-world/topics'',
         LogErrorTopics ''Error fetching topics for octocat/hello-world: Not Found''])
   \<and> get_october_prs (example_env\<lparr>topics_get := (\<lambda>url. Inr topics_not_found)\<rparr>) ''octocat''
        example_response =
       (Inl KeyError,
        [TopicsGet ''https://api.github.com/repos/octocat/hello-world/topics'',
         LogErrorTopics ''Error fetching topics for octocat/hello-world: Not Found''])"
  by code_simp

subsection \<open>The search response is an error\<close>

text \<open>
  C10. When the search response is a dict with the key \<^verbatim>\<open>message\<close>,
  \<^verbatim>\<open>get_october_prs\<close> reads \<^verbatim>\<open>jsonresp["errors"][0]["message"]\<close> before it returns:
  with no key \<^verbatim>\<open>errors\<close> it raises a KeyError, with an empty list of errors an
  IndexError, and whenever it returns a value the three reads succeeded and the value
  is \<^verbatim>\<open>False\<close>.
\<close>

theorem search_error_reads_errors_first:
  assumes "keys_contains ''message'' jsonresp = Inr True"
  shows "(getitem jsonresp ''errors'' = Inl KeyError \<longrightarrow>
            get_october_prs e github_username jsonresp = (Inl KeyError, []))
       \<and> (getitem jsonresp ''errors'' = Inr (JArr []) \<longrightarrow>
            get_october_prs e github_username jsonresp = (Inl IndexError, []))
       \<and> (fst (get_october_prs e github_username jsonresp) = Inr r \<longrightarrow>
            r = RFalse
            \<and> (\<exists>errors error0 api_message.
                  getitem jsonresp ''errors'' = Inr errors
                  \<and> getitem0 errors = Inr error0
                  \<and> getitem error0 ''message'' = Inr api_message))"
  using assms
  by (auto simp: get_october_prs_def search_error_def split: sum.splits if_splits)

theorem search_error_reads_errors_first_witness:
  "keys_contains ''message'' rate_limit_response = Inr True
   \<and> getitem rate_limit_response ''errors'' = Inl KeyError
   \<and> get_october_prs example_env ''octocat'' rate_limit_response = (Inl KeyError, [])
   \<and> keys_contains ''message'' (JObj [(''message'', JStr ''Server Error''), (''errors'', JArr [])]) = Inr True
   \<and> getitem (JObj [(''message'', JStr ''Server Error''), (''errors'', JArr [])]) ''errors'' = Inr (JArr [])
   \<and> get_october_prs example_env ''octocat''
        (JObj [(''message'', JStr ''Server Error''), (''errors'', JArr [])]) = (Inl IndexError, [])"
proof -
  have h1: "keys_contains ''message'' rate_limit_response = Inr True"
    by code_simp
  have h2: "getitem rate_limit_response ''errors'' = Inl KeyError"
    by code_simp
  have h3: "keys_contains ''message'' (JObj [(''message'', JStr ''Server Error''), (''errors'', JArr [])]) = Inr True"
    by code_simp
  have h4: "getitem (JObj [(''message'', JStr ''Server Error''), (''errors'', JArr [])]) ''errors'' = Inr (JArr [])"
    by code_simp
  from search_error_reads_errors_first [OF h1, of example_env "''octocat''"] h2
  have a: "get_october_prs example_env ''octocat'' rate_limit_response = (Inl KeyError, [])"
    by blast
  from search_error_reads_errors_first [OF h3, of example_env "''octocat''"] h4
  have b: "get_october_prs example_env ''octocat''
        (JObj [(''message'', JStr ''Server Error''), (''errors'', JArr [])]) = (Inl IndexError, [])"
    by blast
  from h1 h2 h3 h4 a b show ?thesis by blast
qed

text \<open>
  C4, as stated, fails: the response for a user that does not exist and a response
  for another failure of the search, with a first error whose message can be read, both
  give the value \<^verbatim>\<open>False\<close> (only the log record differs), and \<^verbatim>\<open>get_stats\<close> sends the same text for a user that does not exist as for a
  search with no pull request.
\<close>

theorem user_not_found_not_distinct_counterexample:
  "get_october_prs example_env ''ghost'' user_not_found_response =
     (Inr RFalse, [LogDebugNoUser ''ghost''])
   \<and> get_october_prs example_env ''ghost'' other_failure_response =
     (Inr RFalse,
      [LogErrorRequestFailed ''ghost'' (JStr ''The search is longer than 256 characters.'')])
   \<and> fst (get_stats example_env ''ghost'' user_not_found_response) =
     Inr \<lparr>content = ''No valid October GitHub contributions found for '' @ [CHR 0x27] @
                      ''ghost'' @ [CHR 0x27],
          sent_embed = None\<rparr>
   \<and> fst (get_stats example_env ''ghost'' zero_response) =
     Inr \<lparr>content = ''No valid October GitHub contributions found for '' @ [CHR 0x27] @
                      ''ghost'' @ [CHR 0x27],
          sent_embed = None\<rparr>"
  by code_simp

text \<open>
  C4, amended. When the message of the first error of the search response can be read,
  \<^verbatim>\<open>get_october_prs\<close> returns \<^verbatim>\<open>False\<close>, with a debug record when the message is the one
  for users that cannot be searched and an error record otherwise. \<^verbatim>\<open>False\<close> differs
  from \<^verbatim>\<open>None\<close> and from every list. For every result that fails \<^verbatim>\<open>if prs:\<close>
  (\<^verbatim>\<open>False\<close>, \<^verbatim>\<open>None\<close>, the empty list), \<^verbatim>\<open>get_stats\<close> sends the one text
  "No valid October GitHub contributions found for" with the user name, and no embed.
\<close>

theorem user_not_found_returns_False:
  assumes "keys_contains ''message'' jsonresp = Inr True"
    and "getitem jsonresp ''errors'' = Inr errors"
    and "getitem0 errors = Inr error0"
    and "getitem error0 ''message'' = Inr api_message"
  shows "get_october_prs e github_username jsonresp =
           (Inr RFalse,
            [if api_message = JStr GITHUB_NONEXISTENT_USER_MESSAGE
             then LogDebugNoUser github_username
             else LogErrorRequestFailed github_username api_message])
       \<and> RFalse \<noteq> RNone
       \<and> (\<forall>prs. RFalse \<noteq> RList prs)
       \<and> (\<forall>other r evs.
            get_october_prs e github_username other = (Inr r, evs) \<and> \<not> truthy r \<longrightarrow>
            get_stats e github_username other =
              (Inr \<lparr>content = ''No valid October GitHub contributions found for '' @ [CHR 0x27] @
                               github_username @ [CHR 0x27],
                    sent_embed = None\<rparr>, evs))"
  using assms
  by (simp add: get_october_prs_def search_error_def get_stats_def)

theorem user_not_found_returns_False_witness:
  "keys_contains ''message'' user_not_found_response = Inr True
   \<and> getitem user_not_found_response ''errors'' =
       Inr (JArr [JObj [(''message'', JStr GITHUB_NONEXISTENT_USER_MESSAGE),
                        (''resource'', JStr ''Search''), (''field'', JStr ''q''),
                        (''code'', JStr ''invalid'')]])
   \<and> getitem0 (JArr [JObj [(''message'', JStr GITHUB_NONEXISTENT_USER_MESSAGE),
                        (''resource'', JStr ''Search''), (''field'', JStr ''q''),
                        (''code'', JStr ''invalid'')]]) =
       Inr (JObj [(''message'', JStr GITHUB_NONEXISTENT_USER_MESSAGE),
                  (''resource'', JStr ''Search''), (''field'', JStr ''q''),
                  (''code'', JStr ''invalid'')])
   \<and> getitem (JObj [(''message'', JStr GITHUB_NONEXISTENT_USER_MESSAGE),
                  (''resource'', JStr ''Search''), (''field'', JStr ''q''),
                  (''code'', JStr ''invalid'')]) ''message'' =
       Inr (JStr GITHUB_NONEXISTENT_USER_MESSAGE)
   \<and> get_october_prs example_env ''ghost'' user_not_found_response =
       (Inr RFalse, [LogDebugNoUser ''ghost''])
   \<and> get_october_prs example_env ''ghost'' zero_response = (Inr RNone, [LogInfoNoPRs ''ghost''])
   \<and> \<not> truthy RNone
   \<and> get_stats example_env ''ghost'' zero_response =
       (Inr \<lparr>content = ''No valid October GitHub contributions found for '' @ [CHR 0x27] @
                        ''ghost'' @ [CHR 0x27],
             sent_embed = None\<rparr>, [LogInfoNoPRs ''ghost''])"
proof -
  let ?e0 = "JObj [(''message'', JStr GITHUB_NONEXISTENT_USER_MESSAGE),
                  (''resource'', JStr ''Search''), (''field'', JStr ''q''),
                  (''code'', JStr ''invalid'')]"
  have h1: "keys_contains ''message'' user_not_found_response = Inr True"
    by code_simp
  have h2: "getitem user_not_found_response ''errors'' = Inr (JArr [?e0])"
    by code_simp
  have h3: "getitem0 (JArr [?e0]) = Inr ?e0"
    by simp
  have h4: "getitem ?e0 ''message'' = Inr (JStr GITHUB_NONEXISTENT_USER_MESSAGE)"
    by simp
  have z: "get_october_prs example_env ''ghost'' zero_response = (Inr RNone, [LogInfoNoPRs ''ghost''])"
    by code_simp
  have f: "\<not> truthy RNone"
    by simp
  note r = user_not_found_returns_False [OF h1 h2 h3 h4, of example_env "''ghost''"]
  from r have a: "get_october_prs example_env ''ghost'' user_not_found_response =
       (Inr RFalse, [LogDebugNoUser ''ghost''])"
    by simp
  from r z f have b: "get_stats example_env ''ghost'' zero_response =
       (Inr \<lparr>content = ''No valid October GitHub contributions found for '' @ [CHR 0x27] @
                        ''ghost'' @ [CHR 0x27],
             sent_embed = None\<rparr>, [LogInfoNoPRs ''ghost''])"
    by blast
  from h1 h2 h3 h4 a z f b show ?thesis by blast
qed

subsection \<open>The counter and the ranking\<close>

lemma Counter_snoc: "Counter (xs @ [x]) = counter_incr x (Counter xs)"
  by (simp add: Counter_def)

lemma Counter_Nil: "Counter [] = []"
  by (simp add: Counter_def)

lemma keys_counter_incr:
  "map fst (counter_incr x c) = (if x \<in> set (map fst c) then map fst c else map fst c @ [x])"
  by (induction c) auto

lemma keys_Counter: "set (map fst (Counter xs)) = set xs"
proof (induction xs rule: rev_induct)
  case Nil
  show ?case by (simp add: Counter_Nil)
next
  case (snoc x xs)
  then show ?case by (auto simp: Counter_snoc keys_counter_incr)
qed

lemma distinct_keys_Counter: "distinct (map fst (Counter xs))"
proof (induction xs rule: rev_induct)
  case Nil
  show ?case by (simp add: Counter_Nil)
next
  case (snoc x xs)
  then show ?case by (simp add: Counter_snoc keys_counter_incr)
qed

lemma sum_counter_incr: "sum_list (map snd (counter_incr x c)) = sum_list (map snd c) + 1"
  by (induction c) auto

lemma sum_Counter: "sum_list (map snd (Counter xs)) = int (length xs)"
proof (induction xs rule: rev_induct)
  case Nil
  show ?case by (simp add: Counter_Nil)
next
  case (snoc x xs)
  then show ?case by (simp add: Counter_snoc sum_counter_incr)
qed

lemma map_of_counter_incr:
  "map_of (counter_incr x c) k =
     (if k = x then Some (case map_of c x of None \<Rightarrow> 1 | Some n \<Rightarrow> n + 1) else map_of c k)"
  by (induction c) auto

lemma map_of_Counter:
  "map_of (Counter xs) k = (if k \<in> set xs then Some (int (count_list xs k)) else None)"
proof (induction xs rule: rev_induct)
  case Nil
  show ?case by (simp add: Counter_Nil)
next
  case (snoc x xs)
  then show ?case by (auto simp: Counter_snoc map_of_counter_incr)
qed

lemma Counter_entry:
  assumes "(k, n) \<in> set (Counter xs)"
  shows "k \<in> set xs \<and> n = int (count_list xs k)"
proof -
  from assms have "map_of (Counter xs) k = Some n"
    using distinct_keys_Counter [of xs] by simp
  then show ?thesis by (simp add: map_of_Counter split: if_splits)
qed

lemma first_index_snoc_old: "k \<in> set xs \<Longrightarrow> first_index (xs @ [x]) k = first_index xs k"
  by (simp add: first_index_def takeWhile_append1)

lemma first_index_snoc_new:
  assumes "x \<notin> set xs"
  shows "first_index (xs @ [x]) x = length xs"
proof -
  have "takeWhile (\<lambda>y. y \<noteq> x) (xs @ [x]) = xs @ takeWhile (\<lambda>y. y \<noteq> x) [x]"
    using assms by (intro takeWhile_append2) auto
  then show ?thesis by (simp add: first_index_def)
qed

lemma first_index_less: "k \<in> set xs \<Longrightarrow> first_index xs k < length xs"
  unfolding first_index_def by (induction xs) auto

lemma keys_Counter_first_seen:
  "sorted_wrt (\<lambda>a b. first_index xs a < first_index xs b) (map fst (Counter xs))"
proof (induction xs rule: rev_induct)
  case Nil
  show ?case by (simp add: Counter_Nil)
next
  case (snoc x xs)
  have old: "sorted_wrt (\<lambda>a b. first_index (xs @ [x]) a < first_index (xs @ [x]) b)
               (map fst (Counter xs))"
    using snoc.IH
    by (rule sorted_wrt_mono_rel [rotated]) (simp add: keys_Counter [simplified] first_index_snoc_old)
  show ?case
  proof (cases "x \<in> set xs")
    case True
    with old show ?thesis
      by (simp add: Counter_snoc keys_counter_incr keys_Counter [simplified])
  next
    case False
    with old show ?thesis
      by (simp add: Counter_snoc keys_counter_incr keys_Counter [simplified] sorted_wrt_append
          first_index_snoc_old first_index_snoc_new first_index_less)
  qed
qed

lemma Counter_first_seen:
  "sorted_wrt (\<lambda>a b. first_index xs (fst a) < first_index xs (fst b)) (Counter xs)"
  using keys_Counter_first_seen [of xs] by (simp add: sorted_wrt_map)

lemma ties_from_filters:
  "(\<And>k. sorted_wrt R (filter (\<lambda>y. f y = k) xs)) \<Longrightarrow>
   sorted_wrt (\<lambda>a b. f a = f b \<longrightarrow> R a b) xs"
proof (induction xs)
  case Nil
  show ?case by simp
next
  case (Cons x xs)
  have "sorted_wrt R (filter (\<lambda>y. f y = k) xs)" for k
    using Cons.prems [of k] by (cases "f x = k") simp_all
  then have tl: "sorted_wrt (\<lambda>a b. f a = f b \<longrightarrow> R a b) xs"
    by (rule Cons.IH)
  have "R x y" if "y \<in> set xs" "f x = f y" for y
    using Cons.prems [of "f x"] that by simp
  with tl show ?case by simp
qed

lemma sort_key_ties:
  assumes "sorted_wrt R xs"
  shows "sorted_wrt (\<lambda>a b. f a = f b \<longrightarrow> R a b) (sort_key f xs)"
proof (rule ties_from_filters)
  fix k
  show "sorted_wrt R (filter (\<lambda>y. f y = k) (sort_key f xs))"
    using assms by (simp add: sort_key_stable sorted_wrt_filter)
qed

lemma most_common_sorted:
  "sorted_wrt (\<lambda>a b. snd b \<le> snd a) (most_common n c)"
proof -
  have "sorted (map (\<lambda>kc. - snd kc) (sort_key (\<lambda>kc. - snd kc) c))"
    by (rule sorted_sort_key)
  then have "sorted_wrt (\<lambda>a b. snd b \<le> snd a) (sort_key (\<lambda>kc. - snd kc) c)"
    by (simp add: sorted_map)
  then show ?thesis
    unfolding most_common_def by (rule sorted_wrt_take)
qed

lemma most_common_ties:
  assumes "sorted_wrt R c"
  shows "sorted_wrt (\<lambda>a b. snd a = snd b \<longrightarrow> R a b) (most_common n c)"
proof -
  have "sorted_wrt (\<lambda>a b. - snd a = - snd b \<longrightarrow> R a b) (sort_key (\<lambda>kc. - snd kc) c)"
    using assms by (rule sort_key_ties)
  then have "sorted_wrt (\<lambda>a b. snd a = snd b \<longrightarrow> R a b) (sort_key (\<lambda>kc. - snd kc) c)"
    by simp
  then show ?thesis
    unfolding most_common_def by (rule sorted_wrt_take)
qed

lemma set_most_common: "set (most_common n c) \<subseteq> set c"
  unfolding most_common_def by (metis set_sort set_take_subset)

text \<open>
  C5. For every list of pull requests, \<open>top5\<close> has at most 5 entries; the counts do not
  increase along it; of two entries with the same count, the one that comes first is the
  repository whose first occurrence in the input is earlier; every entry is a repository
  of the input with the number of its occurrences. Pull requests to the repositories
  A, B, A, C, B, A (three distinct names) give [(A, 3), (B, 2), (C, 1)].
\<close>

theorem top5_ranking:
  "length (top5 (summarize_prs prs)) \<le> 5
   \<and> (\<forall>i j. i < j \<and> j < length (top5 (summarize_prs prs)) \<longrightarrow>
         snd (top5 (summarize_prs prs) ! j) \<le> snd (top5 (summarize_prs prs) ! i))
   \<and> (\<forall>i j. i < j \<and> j < length (top5 (summarize_prs prs))
           \<and> snd (top5 (summarize_prs prs) ! i) = snd (top5 (summarize_prs prs) ! j) \<longrightarrow>
         first_index (map repo_shortname prs) (fst (top5 (summarize_prs prs) ! i))
           < first_index (map repo_shortname prs) (fst (top5 (summarize_prs prs) ! j)))
   \<and> (\<forall>kc \<in> set (top5 (summarize_prs prs)).
         fst kc \<in> set (map repo_shortname prs)
         \<and> snd kc = int (count_list (map repo_shortname prs) (fst kc)))
   \<and> (distinct [A, B, C] \<longrightarrow>
        map repo_shortname prs = [A, B, A, C, B, A] \<longrightarrow>
        top5 (summarize_prs prs) = [(A, 3), (B, 2), (C, 1)])"
proof -
  let ?repos = "map repo_shortname prs"
  let ?t = "most_common 5 (Counter ?repos)"
  have t: "top5 (summarize_prs prs) = ?t"
    by (simp add: summarize_prs_def)
  have len: "length ?t \<le> 5"
    by (simp add: most_common_def)
  have desc: "\<forall>i j. i < j \<and> j < length ?t \<longrightarrow> snd (?t ! j) \<le> snd (?t ! i)"
    using most_common_sorted [of 5 "Counter ?repos"]
    by (simp add: sorted_wrt_iff_nth_less)
  have ties: "\<forall>i j. i < j \<and> j < length ?t \<and> snd (?t ! i) = snd (?t ! j) \<longrightarrow>
      first_index ?repos (fst (?t ! i)) < first_index ?repos (fst (?t ! j))"
    using most_common_ties [OF Counter_first_seen, of ?repos 5]
    by (simp add: sorted_wrt_iff_nth_less)
  have counts: "\<forall>kc \<in> set ?t. fst kc \<in> set ?repos \<and> snd kc = int (count_list ?repos (fst kc))"
  proof
    fix kc assume "kc \<in> set ?t"
    then have "(fst kc, snd kc) \<in> set (Counter ?repos)"
      using set_most_common [of 5 "Counter ?repos"] by auto
    then show "fst kc \<in> set ?repos \<and> snd kc = int (count_list ?repos (fst kc))"
      by (rule Counter_entry)
  qed
  have ex: "distinct [A, B, C] \<longrightarrow> ?repos = [A, B, A, C, B, A] \<longrightarrow> ?t = [(A, 3), (B, 2), (C, 1)]"
    by (simp add: most_common_def Counter_def)
  show ?thesis
    unfolding t using len desc ties counts ex by blast
qed

theorem top5_ranking_witness:
  "top5 (summarize_prs claim_prs) = [(''A'', 3), (''B'', 2), (''C'', 1)]
   \<and> top5 (summarize_prs tie_prs) = [(''A'', 2), (''B'', 2), (''C'', 1)]
   \<and> snd (top5 (summarize_prs tie_prs) ! 2) \<le> snd (top5 (summarize_prs tie_prs) ! 1)
   \<and> first_index (map repo_shortname tie_prs) (fst (top5 (summarize_prs tie_prs) ! 0))
       < first_index (map repo_shortname tie_prs) (fst (top5 (summarize_prs tie_prs) ! 1))
   \<and> snd (''C'', 1::int) = int (count_list (map repo_shortname tie_prs) (fst (''C'', 1::int)))"
proof -
  have d: "distinct [''A'', ''B'', ''C'']"
    by simp
  have m: "map repo_shortname claim_prs = [''A'', ''B'', ''A'', ''C'', ''B'', ''A'']"
    by code_simp
  have c: "top5 (summarize_prs claim_prs) = [(''A'', 3), (''B'', 2), (''C'', 1)]"
    using top5_ranking [of claim_prs "''A''" "''B''" "''C''"] d m by blast
  have t: "top5 (summarize_prs tie_prs) = [(''A'', 2), (''B'', 2), (''C'', 1)]"
    by code_simp
  have i12: "(1::nat) < 2 \<and> 2 < length (top5 (summarize_prs tie_prs))"
    by (simp add: t)
  have i01: "(0::nat) < 1 \<and> 1 < length (top5 (summarize_prs tie_prs))
     \<and> snd (top5 (summarize_prs tie_prs) ! 0) = snd (top5 (summarize_prs tie_prs) ! 1)"
    by (simp add: t)
  have mem: "(''C'', 1) \<in> set (top5 (summarize_prs tie_prs))"
    by (simp add: t)
  note r = top5_ranking [of tie_prs]
  from r i12 have a: "snd (top5 (summarize_prs tie_prs) ! 2) \<le> snd (top5 (summarize_prs tie_prs) ! 1)"
    by blast
  from r i01 have b: "first_index (map repo_shortname tie_prs) (fst (top5 (summarize_prs tie_prs) ! 0))
       < first_index (map repo_shortname tie_prs) (fst (top5 (summarize_prs tie_prs) ! 1))"
    by blast
  from r mem have e: "snd (''C'', 1::int) = int (count_list (map repo_shortname tie_prs) (fst (''C'', 1::int)))"
    by blast
  from c t a b e show ?thesis by blast
qed

subsection \<open>The total\<close>

lemma item_loop_length:
  "item_loop e jsonresp items outlist = (Inr res, evs) \<Longrightarrow>
   length res = length outlist + length (filter (admitted e jsonresp) items)"
proof (induction items arbitrary: outlist evs)
  case Nil
  then show ?case by simp
next
  case (Cons item items)
  obtain r evs1 where p: "pr_item e jsonresp item = (r, evs1)"
    by (cases "pr_item e jsonresp item")
  show ?case
  proof (cases r)
    case (Inl err)
    with Cons.prems p show ?thesis by simp
  next
    case (Inr added)
    obtain res' evs2 where l: "item_loop e jsonresp items
        (case added of None \<Rightarrow> outlist | Some itemdict \<Rightarrow> outlist @ [itemdict]) = (res', evs2)"
      by (cases "item_loop e jsonresp items
        (case added of None \<Rightarrow> outlist | Some itemdict \<Rightarrow> outlist @ [itemdict])")
    with Cons.prems p Inr have "res' = Inr res" by simp
    with l have "length res =
        length (case added of None \<Rightarrow> outlist | Some itemdict \<Rightarrow> outlist @ [itemdict])
        + length (filter (admitted e jsonresp) items)"
      by (intro Cons.IH) simp
    moreover have "admitted e jsonresp item \<longleftrightarrow> added \<noteq> None"
      using p Inr by (cases added) (simp_all add: admitted_def)
    ultimately show ?thesis
      by (cases added) simp_all
  qed
qed

text \<open>
  C6. \<open>n_prs\<close> is the length of the list \<^verbatim>\<open>_summarize_prs\<close> is given, 0 for the empty
  list; and when \<^verbatim>\<open>get_october_prs\<close> returns a list, that length is the number of
  items of the search response that the loop admitted.
\<close>

theorem total_count_is_number_admitted:
  "n_prs (summarize_prs prs) = int (length prs)
   \<and> n_prs (summarize_prs []) = 0
   \<and> (getitem jsonresp ''items'' = Inr its \<and> iter its = Inr items
        \<and> get_october_prs e github_username jsonresp = (Inr (RList prs), evs) \<longrightarrow>
        n_prs (summarize_prs prs) = int (length (filter (admitted e jsonresp) items)))"
proof (intro conjI impI)
  show "n_prs (summarize_prs prs) = int (length prs)"
    by (simp add: summarize_prs_def)
  show "n_prs (summarize_prs []) = 0"
    by (simp add: summarize_prs_def)
  assume a: "getitem jsonresp ''items'' = Inr its \<and> iter its = Inr items
        \<and> get_october_prs e github_username jsonresp = (Inr (RList prs), evs)"
  then have "item_loop e jsonresp items [] = (Inr prs, evs)"
    by (auto simp: get_october_prs_def search_error_def
        split: sum.splits if_splits prod.splits)
  then have "length prs = length (filter (admitted e jsonresp) items)"
    using item_loop_length by fastforce
  then show "n_prs (summarize_prs prs) = int (length (filter (admitted e jsonresp) items))"
    by (simp add: summarize_prs_def)
qed

theorem total_count_is_number_admitted_witness:
  "getitem example_response ''items'' = Inr (JArr [early_item, late_item])
   \<and> iter (JArr [early_item, late_item]) = Inr [early_item, late_item]
   \<and> get_october_prs (example_env\<lparr>topics_get := (\<lambda>url. Inr (JObj [(''names'', JArr [JStr ''hacktoberfest''])]))\<rparr>)
        ''octocat'' example_response =
       (Inr (RList
          [\<lparr>repo_url = ''https://www.github.com/python-discord/seasonalbot'',
            repo_shortname = ''python-discord/seasonalbot'',
            created_at = \<lparr>year = 2020, month = 10, day = 2, hour = 23, minute = 59,
                           second = 59, microsecond = 0\<rparr>\<rparr>,
           \<lparr>repo_url = ''https://www.github.com/octocat/hello-world'',
            repo_shortname = ''octocat/hello-world'',
            created_at = \<lparr>year = 2020, month = 10, day = 5, hour = 12, minute = 30,
                           second = 0, microsecond = 0\<rparr>\<rparr>]),
        [TopicsGet ''https://api.github.com/repos/octocat/hello-world/topics''])
   \<and> int (length (filter (admitted (example_env\<lparr>topics_get := (\<lambda>url. Inr (JObj [(''names'', JArr [JStr ''hacktoberfest''])]))\<rparr>) example_response)
        [early_item, late_item])) = 2"
proof -
  let ?e = "example_env\<lparr>topics_get := (\<lambda>url. Inr (JObj [(''names'', JArr [JStr ''hacktoberfest''])]))\<rparr>"
  let ?prs = "[\<lparr>repo_url = ''https://www.github.com/python-discord/seasonalbot'',
            repo_shortname = ''python-discord/seasonalbot'',
            created_at = \<lparr>year = 2020, month = 10, day = 2, hour = 23, minute = 59,
                           second = 59, microsecond = 0\<rparr>\<rparr>,
           \<lparr>repo_url = ''https://www.github.com/octocat/hello-world'',
            repo_shortname = ''octocat/hello-world'',
            created_at = \<lparr>year = 2020, month = 10, day = 5, hour = 12, minute = 30,
                           second = 0, microsecond = 0\<rparr>\<rparr>]"
  have h1: "getitem example_response ''items'' = Inr (JArr [early_item, late_item])"
    by code_simp
  have h2: "iter (JArr [early_item, late_item]) = Inr [early_item, late_item]"
    by simp
  have h3: "get_october_prs ?e ''octocat'' example_response =
       (Inr (RList ?prs), [TopicsGet ''https://api.github.com/repos/octocat/hello-world/topics''])"
    by code_simp
  have n: "n_prs (summarize_prs ?prs) = 2"
    by (simp add: summarize_prs_def)
  from total_count_is_number_admitted [of ?prs example_response "JArr [early_item, late_item]"
      "[early_item, late_item]" ?e "''octocat''"
      "[TopicsGet ''https://api.github.com/repos/octocat/hello-world/topics'']"] h1 h2 h3
  have "n_prs (summarize_prs ?prs) = int (length (filter (admitted ?e example_response)
        [early_item, late_item]))"
    by blast
  with n have "int (length (filter (admitted ?e example_response) [early_item, late_item])) = 2"
    by simp
  with h1 h2 h3 show ?thesis by blast
qed

lemma sum_take_le:
  assumes "\<forall>x \<in> set xs. (0::int) \<le> x"
  shows "sum_list (take n xs) \<le> sum_list xs"
proof -
  have "sum_list xs = sum_list (take n xs) + sum_list (drop n xs)"
    by (metis append_take_drop_id sum_list_append)
  moreover have "0 \<le> sum_list (drop n xs)"
    using assms by (meson in_set_dropD sum_list_nonneg)
  ultimately show ?thesis by simp
qed

lemma Counter_nonneg: "\<forall>x \<in> set (map snd (Counter xs)). 0 \<le> x"
  using Counter_entry [of _ _ xs] by fastforce

lemma sum_sort_key: "sum_list (map g (sort_key f xs)) = sum_list (map g xs)"
  for g :: "'a \<Rightarrow> int" and f :: "'a \<Rightarrow> int"
proof -
  have "mset (map g (sort_key f xs)) = mset (map g xs)"
    by simp
  then show ?thesis by (metis sum_mset_sum_list)
qed

lemma length_Counter: "length (Counter xs) = card (set xs)"
  by (metis distinct_card distinct_keys_Counter keys_Counter length_map)

text \<open>
  C7. The counts listed in \<open>top5\<close> add up to at most \<open>n_prs\<close>, and to \<open>n_prs\<close> when
  the pull requests go to at most 5 distinct repositories.
\<close>

theorem top5_sum_le_total:
  "sum_list (map snd (top5 (summarize_prs prs))) \<le> n_prs (summarize_prs prs)
   \<and> (card (set (map repo_shortname prs)) \<le> 5 \<longrightarrow>
        sum_list (map snd (top5 (summarize_prs prs))) = n_prs (summarize_prs prs))"
proof -
  let ?repos = "map repo_shortname prs"
  let ?s = "sort_key (\<lambda>kc. - snd kc) (Counter ?repos)"
  have total: "sum_list (map snd ?s) = int (length prs)"
    by (simp add: sum_sort_key sum_Counter)
  have "\<forall>x \<in> set (map snd ?s). 0 \<le> x"
    using Counter_nonneg [of ?repos] by simp
  then have "sum_list (take 5 (map snd ?s)) \<le> sum_list (map snd ?s)"
    by (rule sum_take_le)
  then have le: "sum_list (map snd (take 5 ?s)) \<le> int (length prs)"
    by (simp add: take_map total)
  have eq: "sum_list (map snd (take 5 ?s)) = int (length prs)" if "card (set ?repos) \<le> 5"
  proof -
    have "length ?s \<le> 5" using that by (simp add: length_Counter)
    then have "take 5 ?s = ?s" by simp
    with total show ?thesis by simp
  qed
  show ?thesis
    using le eq by (simp add: summarize_prs_def most_common_def)
qed

theorem top5_sum_le_total_witness:
  "card (set (map repo_shortname claim_prs)) \<le> 5
   \<and> sum_list (map snd (top5 (summarize_prs claim_prs))) = n_prs (summarize_prs claim_prs)
   \<and> sum_list (map snd (top5 (summarize_prs six_prs))) \<le> n_prs (summarize_prs six_prs)
   \<and> sum_list (map snd (top5 (summarize_prs six_prs))) = 5
   \<and> n_prs (summarize_prs six_prs) = 6"
proof -
  have "set (map repo_shortname claim_prs) = {''A'', ''B'', ''C''}"
    by (auto simp: claim_prs_def prs_of_repos_def)
  then have h: "card (set (map repo_shortname claim_prs)) \<le> 5"
    by simp
  from top5_sum_le_total [of claim_prs] h
  have a: "sum_list (map snd (top5 (summarize_prs claim_prs))) = n_prs (summarize_prs claim_prs)"
    by blast
  from top5_sum_le_total [of six_prs]
  have b: "sum_list (map snd (top5 (summarize_prs six_prs))) \<le> n_prs (summarize_prs six_prs)"
    by blast
  have c: "sum_list (map snd (top5 (summarize_prs six_prs))) = 5"
    by code_simp
  have d: "n_prs (summarize_prs six_prs) = 6"
    by code_simp
  from h a b c d show ?thesis by blast
qed

subsection \<open>The sentence about the T-shirt\<close>

lemma str_nat_nonempty: "str_nat n \<noteq> []"
  by (subst str_nat.simps) simp

lemma str_int_nonempty: "str_int i \<noteq> []"
  by (simp add: str_int_def str_nat_nonempty)

lemma away_not_one_away:
  "str_int k @ '' PRs away from a T-shirt or a tree!**'' \<noteq> ''1 PR away from a T-shirt or a tree!**''"
proof
  assume "str_int k @ '' PRs away from a T-shirt or a tree!**'' = ''1 PR away from a T-shirt or a tree!**''"
  then have "length (str_int k @ '' PRs away from a T-shirt or a tree!**'')
    = length ''1 PR away from a T-shirt or a tree!**''"
    by (rule arg_cong)
  then have "length (str_int k) = 0" by simp
  then show False using str_int_nonempty [of k] by simp
qed

text \<open>
  C8. The sentence depends on the count through the threshold 4 only: it is the
  "has earned" sentence exactly when the count is at least 4, the "is 1 PR away"
  sentence exactly when the count is 3, and the "is N PRs away" sentence with
  N = 4 - count exactly when the count is below 3. So 4 and 5 give "has earned", 3
  gives "is 1 PR away" and 0 gives "is 4 PRs away". \<^verbatim>\<open>build_embed\<close> puts the sentence
  for the length of its list into the description.
\<close>

theorem shirtstr_classifier:
  "(shirtstr u n = ''**'' @ u @ '' has earned a T-shirt or a tree!**'' \<longleftrightarrow> 4 \<le> n)
   \<and> (shirtstr u n = ''**'' @ u @ '' is 1 PR away from a T-shirt or a tree!**'' \<longleftrightarrow> n = 3)
   \<and> (shirtstr u n = ''**'' @ u @ '' is '' @ str_int (4 - n) @ '' PRs away from a T-shirt or a tree!**''
        \<longleftrightarrow> n < 3)
   \<and> shirtstr u 4 = ''**'' @ u @ '' has earned a T-shirt or a tree!**''
   \<and> shirtstr u 5 = ''**'' @ u @ '' has earned a T-shirt or a tree!**''
   \<and> shirtstr u 3 = ''**'' @ u @ '' is 1 PR away from a T-shirt or a tree!**''
   \<and> shirtstr u 0 = ''**'' @ u @ '' is 4 PRs away from a T-shirt or a tree!**''
   \<and> description (build_embed u prs) =
       u @ '' has made '' @ str_int (int (length prs)) @ '' '' @
       contributionator (int (length prs)) @ '' in October'' @ [CHR 0x0A, CHR 0x0A] @
       shirtstr u (int (length prs)) @ [CHR 0x0A, CHR 0x0A]"
proof -
  have four: "str_int 4 = ''4''"
    by code_simp
  consider "4 \<le> n" | "n = 3" | "n < 3" by linarith
  then have "(shirtstr u n = ''**'' @ u @ '' has earned a T-shirt or a tree!**'' \<longleftrightarrow> 4 \<le> n)
   \<and> (shirtstr u n = ''**'' @ u @ '' is 1 PR away from a T-shirt or a tree!**'' \<longleftrightarrow> n = 3)
   \<and> (shirtstr u n = ''**'' @ u @ '' is '' @ str_int (4 - n) @ '' PRs away from a T-shirt or a tree!**''
        \<longleftrightarrow> n < 3)"
  proof cases
    case 1
    then show ?thesis by (simp add: shirtstr_def PRS_FOR_SHIRT_def)
  next
    case 2
    then show ?thesis
      using away_not_one_away [of 1, symmetric]
      by (simp add: shirtstr_def PRS_FOR_SHIRT_def)
  next
    case 3
    then show ?thesis
      using away_not_one_away [of "4 - n"]
      by (simp add: shirtstr_def PRS_FOR_SHIRT_def)
  qed
  moreover have "shirtstr u 0 = ''**'' @ u @ '' is 4 PRs away from a T-shirt or a tree!**''"
    by (simp add: shirtstr_def PRS_FOR_SHIRT_def four)
  moreover have "description (build_embed u prs) =
       u @ '' has made '' @ str_int (int (length prs)) @ '' '' @
       contributionator (int (length prs)) @ '' in October'' @ [CHR 0x0A, CHR 0x0A] @
       shirtstr u (int (length prs)) @ [CHR 0x0A, CHR 0x0A]"
    by (simp add: build_embed_def summarize_prs_def Let_def)
  ultimately show ?thesis
    by (simp add: shirtstr_def PRS_FOR_SHIRT_def)
qed

subsection \<open>The short name of a repository\<close>

lemma strip_prefix_Some: "strip_prefix p s = Some r \<longleftrightarrow> s = p @ r"
  by (induction p s rule: strip_prefix.induct) auto

lemma any_char_Some: "any_char s = Some r \<longleftrightarrow> (\<exists>c. s = c # r \<and> c \<noteq> CHR 0x0A)"
  by (cases s) auto

lemma match_tail_Some:
  "match_tail s \<noteq> None \<longleftrightarrow>
     (\<exists>c1 c2 c rest. s = ''://api'' @ [c1] @ ''github'' @ [c2] @ ''com/repos/'' @ c # rest
        \<and> c1 \<noteq> CHR 0x0A \<and> c2 \<noteq> CHR 0x0A \<and> shortname_char c)"
  (is "?L \<longleftrightarrow> ?R")
proof
  assume ?L
  then obtain s1 s2 s3 s4 s5 where *:
    "strip_prefix ''://api'' s = Some s1" "any_char s1 = Some s2"
    "strip_prefix ''github'' s2 = Some s3" "any_char s3 = Some s4"
    "strip_prefix ''com/repos/'' s4 = Some s5" "takeWhile shortname_char s5 \<noteq> []"
    by (auto simp: match_tail_def split: option.splits if_splits)
  from *(6) obtain c rest where "s5 = c # rest" "shortname_char c"
    by (cases s5) (auto split: if_splits)
  with * show ?R
    unfolding strip_prefix_Some any_char_Some by auto
next
  assume ?R
  then obtain c1 c2 c rest where
    s: "s = ''://api'' @ [c1] @ ''github'' @ [c2] @ ''com/repos/'' @ c # rest"
    and c: "c1 \<noteq> CHR 0x0A" "c2 \<noteq> CHR 0x0A" "shortname_char c"
    by blast
  show ?L
    unfolding s using c by (simp add: match_tail_def)
qed

lemma match_at_Some:
  "match_at s \<noteq> None \<longleftrightarrow>
     (\<exists>scheme r. s = scheme @ r \<and> (scheme = ''http'' \<or> scheme = ''https'') \<and> match_tail r \<noteq> None)"
  (is "?L \<longleftrightarrow> ?R")
proof
  assume ?L
  then obtain r where r: "strip_prefix ''http'' s = Some r"
    by (auto simp: match_at_def split: option.splits)
  then have s: "s = ''http'' @ r" by (simp only: strip_prefix_Some)
  show ?R
  proof (cases "match_tail r \<noteq> None")
    case True
    with s show ?thesis by blast
  next
    case False
    with \<open>?L\<close> r obtain r' where "strip_prefix ''s'' r = Some r'" "match_tail r' \<noteq> None"
      by (auto simp: match_at_def split: option.splits)
    then have "s = ''https'' @ r'" "match_tail r' \<noteq> None"
      using s by (simp_all add: strip_prefix_Some)
    then show ?thesis by blast
  qed
next
  assume ?R
  then obtain scheme r where s: "s = scheme @ r" and sch: "scheme = ''http'' \<or> scheme = ''https''"
    and m: "match_tail r \<noteq> None" by blast
  from sch show ?L
  proof
    assume "scheme = ''http''"
    with s m show ?thesis
      by (auto simp: match_at_def split: option.splits)
  next
    assume "scheme = ''https''"
    with s m show ?thesis
      by (auto simp: match_at_def split: option.splits)
  qed
qed

lemma first_match_Some:
  "first_match s \<noteq> None \<longleftrightarrow> (\<exists>pre suf. s = pre @ suf \<and> match_at suf \<noteq> None)"
proof (induction s)
  case Nil
  show ?case by simp
next
  case (Cons c cs)
  show ?case
  proof
    assume "first_match (c # cs) \<noteq> None"
    then have "match_at (c # cs) \<noteq> None \<or> first_match cs \<noteq> None"
      by (auto split: option.splits)
    then show "\<exists>pre suf. c # cs = pre @ suf \<and> match_at suf \<noteq> None"
    proof
      assume "match_at (c # cs) \<noteq> None"
      then have "c # cs = [] @ (c # cs) \<and> match_at (c # cs) \<noteq> None" by simp
      then show ?thesis by blast
    next
      assume "first_match cs \<noteq> None"
      with Cons.IH obtain pre suf where "cs = pre @ suf" "match_at suf \<noteq> None" by blast
      then have "c # cs = (c # pre) @ suf \<and> match_at suf \<noteq> None" by simp
      then show ?thesis by blast
    qed
  next
    assume "\<exists>pre suf. c # cs = pre @ suf \<and> match_at suf \<noteq> None"
    then obtain pre suf where ps: "c # cs = pre @ suf" "match_at suf \<noteq> None" by blast
    show "first_match (c # cs) \<noteq> None"
    proof (cases pre)
      case Nil
      with ps show ?thesis by (auto split: option.splits)
    next
      case (Cons p pre')
      with ps have "cs = pre' @ suf" by simp
      with ps(2) Cons.IH have "first_match cs \<noteq> None" by blast
      then show ?thesis by (auto split: option.splits)
    qed
  qed
qed

lemma takeWhile_run:
  assumes "list_all P g" and "rest = [] \<or> \<not> P (hd rest)"
  shows "takeWhile P (g @ rest) = g"
proof -
  have "takeWhile P (g @ rest) = g @ takeWhile P rest"
    using assms(1) by (intro takeWhile_append2) (simp add: list_all_iff)
  moreover have "takeWhile P rest = []"
    using assms(2) by (cases rest) auto
  ultimately show ?thesis by simp
qed

lemma match_tail_run:
  assumes "g \<noteq> []" "list_all shortname_char g" "rest = [] \<or> \<not> shortname_char (hd rest)"
  shows "match_tail (''://api.github.com/repos/'' @ g @ rest) = Some g"
  using assms by (simp add: match_tail_def takeWhile_run)

text \<open>
  C9. On \<^verbatim>\<open>http\<close> or \<^verbatim>\<open>https\<close>, then \<^verbatim>\<open>://api.github.com/repos/\<close>, then a run \<open>g\<close> of
  characters of the class that is not empty and ends at the end of the string or before a
  character outside the class, \<^verbatim>\<open>_get_shortname\<close> returns \<open>g\<close>. It raises an IndexError
  exactly when the pattern occurs nowhere in the string, as in the address of a
  repository page, which lacks \<^verbatim>\<open>api.\<close> and \<^verbatim>\<open>/repos\<close>. The class holds the letters
  beyond ASCII: a name with the letter 0xE9 is returned whole, and the run stops at the
  multiplication sign 0xD7.
\<close>

theorem get_shortname_spec:
  "((scheme = ''http'' \<or> scheme = ''https'') \<and> g \<noteq> [] \<and> list_all shortname_char g
      \<and> (rest = [] \<or> \<not> shortname_char (hd rest)) \<longrightarrow>
      get_shortname (scheme @ ''://api.github.com/repos/'' @ g @ rest) = Inr g)
   \<and> (get_shortname in_url = Inl IndexError \<longleftrightarrow>
        \<not> (\<exists>pre scheme c1 c2 c rest.
              in_url = pre @ scheme @ ''://api'' @ [c1] @ ''github'' @ [c2] @ ''com/repos/'' @ c # rest
              \<and> (scheme = ''http'' \<or> scheme = ''https'')
              \<and> c1 \<noteq> CHR 0x0A \<and> c2 \<noteq> CHR 0x0A \<and> shortname_char c))
   \<and> get_shortname ''https://github.com/python-discord/seasonalbot'' = Inl IndexError
   \<and> get_shortname (''https://api.github.com/repos/caf'' @ [CHR 0xE9] @ ''/menu'') =
       Inr (''caf'' @ [CHR 0xE9] @ ''/menu'')
   \<and> get_shortname (''https://api.github.com/repos/a'' @ [CHR 0xD7] @ ''b'') = Inr ''a''"
proof (intro conjI impI)
  assume a: "(scheme = ''http'' \<or> scheme = ''https'') \<and> g \<noteq> [] \<and> list_all shortname_char g
      \<and> (rest = [] \<or> \<not> shortname_char (hd rest))"
  then have t: "match_tail (''://api.github.com/repos/'' @ g @ rest) = Some g"
    by (intro match_tail_run) simp_all
  from a have "scheme = ''http'' \<or> scheme = ''https''" by simp
  then have "match_at (scheme @ ''://api.github.com/repos/'' @ g @ rest) = Some g"
  proof
    assume "scheme = ''http''"
    then show ?thesis using t by (simp add: match_at_def)
  next
    assume "scheme = ''https''"
    then show ?thesis using t by (simp add: match_at_def)
  qed
  moreover have "\<exists>c cs. scheme @ ''://api.github.com/repos/'' @ g @ rest = c # cs"
    using a by auto
  ultimately show "get_shortname (scheme @ ''://api.github.com/repos/'' @ g @ rest) = Inr g"
    by (auto simp: get_shortname_def)
next
  have "get_shortname in_url = Inl IndexError \<longleftrightarrow> \<not> first_match in_url \<noteq> None"
    by (simp add: get_shortname_def split: option.splits)
  also have "\<dots> \<longleftrightarrow> \<not> (\<exists>pre scheme c1 c2 c rest.
              in_url = pre @ scheme @ ''://api'' @ [c1] @ ''github'' @ [c2] @ ''com/repos/'' @ c # rest
              \<and> (scheme = ''http'' \<or> scheme = ''https'')
              \<and> c1 \<noteq> CHR 0x0A \<and> c2 \<noteq> CHR 0x0A \<and> shortname_char c)"
    unfolding first_match_Some match_at_Some match_tail_Some by blast
  finally show "get_shortname in_url = Inl IndexError \<longleftrightarrow>
        \<not> (\<exists>pre scheme c1 c2 c rest.
              in_url = pre @ scheme @ ''://api'' @ [c1] @ ''github'' @ [c2] @ ''com/repos/'' @ c # rest
              \<and> (scheme = ''http'' \<or> scheme = ''https'')
              \<and> c1 \<noteq> CHR 0x0A \<and> c2 \<noteq> CHR 0x0A \<and> shortname_char c)" .
next
  show "get_shortname ''https://github.com/python-discord/seasonalbot'' = Inl IndexError"
    by code_simp
next
  show "get_shortname (''https://api.github.com/repos/caf'' @ [CHR 0xE9] @ ''/menu'') =
       Inr (''caf'' @ [CHR 0xE9] @ ''/menu'')"
    by code_simp
next
  show "get_shortname (''https://api.github.com/repos/a'' @ [CHR 0xD7] @ ''b'') = Inr ''a''"
    by code_simp
qed

theorem get_shortname_spec_witness:
  "''python-discord/seasonalbot'' \<noteq> []
   \<and> list_all shortname_char ''python-discord/seasonalbot''
   \<and> \<not> shortname_char (hd ''?page=2'')
   \<and> get_shortname (''https'' @ ''://api.github.com/repos/'' @ ''python-discord/seasonalbot'' @ ''?page=2'')
       = Inr ''python-discord/seasonalbot''"
proof -
  have h: "''python-discord/seasonalbot'' \<noteq> []
   \<and> list_all shortname_char ''python-discord/seasonalbot''
   \<and> \<not> shortname_char (hd ''?page=2'')"
    by code_simp
  from get_shortname_spec [of "''https''" "''python-discord/seasonalbot''" "''?page=2''"] h
  have "get_shortname (''https'' @ ''://api.github.com/repos/'' @ ''python-discord/seasonalbot'' @ ''?page=2'')
       = Inr ''python-discord/seasonalbot''"
    by blast
  with h show ?thesis by blast
qed

end
